theory Spec2Isabelle
  imports Complex_Main
begin

section \<open>The engine of the sum game (src/src/App.tsx)\<close>

text \<open>
  The React component \<^verbatim>\<open>App\<close> holds the game in six state cells (grid, target, score,
  mode, gameState, timeLeft). Every handler is modelled as a function from the state before
  the event to the state after it, with the updates of one event applied together, as React
  applies the batched updates of one handler.

  \<^verbatim>\<open>Math.random()\<close> is an input of the model: a draw is a real number \<open>x\<close> with
  \<open>0 \<le> x < 1\<close>. The identifier of a tile (a base-36 rendering of a draw) is taken from the
  entropy source as a string.
\<close>

subsection \<open>Constants\<close>

definition COLS :: nat where "COLS = 6"
definition ROWS :: nat where "ROWS = 10"
definition INITIAL_ROWS :: nat where "INITIAL_ROWS = 4"
definition TARGET_MIN :: int where "TARGET_MIN = 10"
definition TARGET_MAX :: int where "TARGET_MAX = 25"
definition TIME_MODE_LIMIT :: int where "TIME_MODE_LIMIT = 15"

subsection \<open>Data\<close>

datatype GameMode = Classic | Time

datatype GameState = Menu | Playing | Paused | GameOver

text \<open>\<^verbatim>\<open>interface Block { id: string; value: number; isSelected: boolean }\<close>\<close>

record Block =
  id_blk :: string
  value_blk :: int
  isSelected :: bool

text \<open>\<^verbatim>\<open>(Block | null)[][]\<close>: a list of rows, row 0 on top; \<open>None\<close> is \<^verbatim>\<open>null\<close>.\<close>

type_synonym Grid = "Block option list list"

record Game =
  grid :: Grid
  target :: int
  score :: int
  mode :: GameMode
  gameState :: GameState
  timeLeft :: int

text \<open>The only error a handler can raise: reading a property of \<^verbatim>\<open>undefined\<close>.\<close>

datatype error = TypeError

text \<open>
  The grid invariant: \<open>ROWS\<close> rows of \<open>COLS\<close> cells. \<^verbatim>\<open>initGame\<close> establishes it and
  every handler keeps it. The loops of the handlers run over the index ranges
  \<open>0..ROWS-1\<close> and \<open>0..COLS-1\<close>; the model of these loops is the code's behaviour on grids
  satisfying the invariant.
\<close>

definition wf_grid :: "Grid \<Rightarrow> bool" where
  "wf_grid g = (length g = ROWS \<and> list_all (\<lambda>row. length row = COLS) g)"

text \<open>\<^verbatim>\<open>xs[i]\<close> for a JavaScript number \<open>i\<close>: \<open>None\<close> is \<^verbatim>\<open>undefined\<close>.\<close>

definition js_index :: "'a list \<Rightarrow> int \<Rightarrow> 'a option" where
  "js_index xs i = (if 0 \<le> i \<and> i < int (length xs) then Some (xs ! nat i) else None)"

text \<open>\<^verbatim>\<open>g[r][c] = v\<close> on a grid whose rows are arrays of their own.\<close>

definition setCell :: "Grid \<Rightarrow> nat \<Rightarrow> nat \<Rightarrow> Block option \<Rightarrow> Grid" where
  "setCell g r c v = g[r := (g ! r)[c := v]]"

text \<open>Column \<open>c\<close> of a grid, top to bottom (a view used in the statements only).\<close>

definition column :: "Grid \<Rightarrow> nat \<Rightarrow> Block option list" where
  "column g c = map (\<lambda>row. row ! c) g"

subsection \<open>Random values\<close>

text \<open>
  \<^verbatim>\<open>Math.floor(Math.random() * (TARGET_MAX - TARGET_MIN + 1)) + TARGET_MIN\<close>. The factor
  is 16, a power of two, so the product of the draw and the factor is the same number in
  binary floating point as in the reals.
\<close>

definition generateTarget :: "real \<Rightarrow> int" where
  "generateTarget x = \<lfloor>x * of_int (TARGET_MAX - TARGET_MIN + 1)\<rfloor> + TARGET_MIN"

text \<open>
  \<^verbatim>\<open>{ id: Math.random().toString(36).substr(2, 9),
     value: Math.floor(Math.random() * 9) + 1, isSelected: false }\<close>.
  The value is computed over the reals. The code floors the product as a double, and for
  a draw just below a multiple of \<open>1/9\<close> the rounded product can be that multiple's
  integer, one more than the floor over the reals (the draw \<open>0.8888888888888888\<close> gives
  9 in the code and 8 here). Both are between 1 and 9. The statements below use no more of
  a tile's value than that it is not negative.
\<close>

definition newBlock :: "string \<times> real \<Rightarrow> Block" where
  "newBlock e = \<lparr>id_blk = fst e, value_blk = \<lfloor>snd e * 9\<rfloor> + 1, isSelected = False\<rparr>"

subsection \<open>Selection\<close>

text \<open>\<^verbatim>\<open>cell?.isSelected\<close>\<close>

definition isSel :: "Block option \<Rightarrow> bool" where
  "isSel cell = (case cell of None \<Rightarrow> False | Some b \<Rightarrow> isSelected b)"

text \<open>
  The nested \<^verbatim>\<open>forEach\<close> that collects \<^verbatim>\<open>{r, c, val}\<close> of every selected cell, in
  row-major order.
\<close>

definition selectedInRow :: "nat \<Rightarrow> Block option list \<Rightarrow> (nat \<times> nat \<times> int) list" where
  "selectedInRow ri row =
     concat (map (\<lambda>(ci, cell). case cell of
                     None \<Rightarrow> []
                   | Some b \<Rightarrow> if isSelected b then [(ri, ci, value_blk b)] else [])
                 (enumerate 0 row))"

definition selectedBlocks :: "Grid \<Rightarrow> (nat \<times> nat \<times> int) list" where
  "selectedBlocks g = concat (map (\<lambda>(ri, row). selectedInRow ri row) (enumerate 0 g))"

text \<open>\<^verbatim>\<open>selectedBlocks.reduce((acc, b) => acc + b.val, 0)\<close>\<close>

definition currentSum :: "(nat \<times> nat \<times> int) list \<Rightarrow> int" where
  "currentSum sel = foldl (\<lambda>acc b. acc + snd (snd b)) 0 sel"

text \<open>\<^verbatim>\<open>selectedBlocks.forEach(b => { newGrid[b.r][b.c] = null; })\<close>\<close>

definition clearBlocks :: "Grid \<Rightarrow> (nat \<times> nat \<times> int) list \<Rightarrow> Grid" where
  "clearBlocks g sel = foldl (\<lambda>h b. setCell h (fst b) (fst (snd b)) None) g sel"

text \<open>The overflow branch: \<^verbatim>\<open>if (cell) cell.isSelected = false\<close> for every cell.\<close>

definition deselectAll :: "Grid \<Rightarrow> Grid" where
  "deselectAll g = map (map (map_option (\<lambda>b. b\<lparr>isSelected := False\<rparr>))) g"

subsection \<open>Gravity\<close>

text \<open>
  The inner loop of the gravity pass for column \<open>col\<close>:
  \<^verbatim>\<open>for (let row = ROWS - 1; row >= 0; row--) {
    if (newGrid[row][col] !== null) {
      const temp = newGrid[row][col];
      newGrid[row][col] = null;
      newGrid[emptyRow][col] = temp;
      emptyRow--;
    }
  }\<close>
  The first argument counts the rows still to visit (the loop variable is one less);
  \<open>emptyRow\<close> is an integer, as it ends at \<open>-1\<close> in a full column.
\<close>

fun gravityRows :: "nat \<Rightarrow> nat \<Rightarrow> int \<Rightarrow> Grid \<Rightarrow> Grid" where
  "gravityRows col 0 emptyRow g = g"
| "gravityRows col (Suc row) emptyRow g =
     (case g ! row ! col of
        None \<Rightarrow> gravityRows col row emptyRow g
      | Some temp \<Rightarrow>
          gravityRows col row (emptyRow - 1)
            (setCell (setCell g row col None) (nat emptyRow) col (Some temp)))"

text \<open>\<^verbatim>\<open>for (let col = 0; col < COLS; col++) { let emptyRow = ROWS - 1; ... }\<close>\<close>

definition applyGravity :: "Grid \<Rightarrow> Grid" where
  "applyGravity g = foldl (\<lambda>h col. gravityRows col ROWS (int ROWS - 1) h) g [0..<COLS]"

text \<open>What compaction of one column means: the empty cells first, then the tiles in order.\<close>

definition compacted :: "Block option list \<Rightarrow> Block option list" where
  "compacted xs = replicate (length (filter (\<lambda>x. x = None) xs)) None @ filter (\<lambda>x. x \<noteq> None) xs"

subsection \<open>Row injection\<close>

text \<open>
  \<^verbatim>\<open>Array(COLS).fill(null).map(() => ({ id: ..., value: ..., isSelected: false }))\<close>;
  \<open>rnd c\<close> is the pair of draws for column \<open>c\<close>.
\<close>

definition freshRow :: "(nat \<Rightarrow> string \<times> real) \<Rightarrow> Block option list" where
  "freshRow rnd = map (\<lambda>c. Some (newBlock (rnd c))) [0..<COLS]"

text \<open>\<^verbatim>\<open>for (let r = 0; r < ROWS - 1; r++) { newGrid[r] = newGrid[r + 1]; }\<close>\<close>

definition shiftUp :: "Grid \<Rightarrow> Grid" where
  "shiftUp g = foldl (\<lambda>h r. h[r := h ! (r + 1)]) g [0..<ROWS - 1]"

text \<open>\<^verbatim>\<open>prevGrid[0].some(cell => cell !== null)\<close>\<close>

definition topRowOccupied :: "Grid \<Rightarrow> bool" where
  "topRowOccupied g = list_ex (\<lambda>cell. cell \<noteq> None) (g ! 0)"

text \<open>
  The updater that \<^verbatim>\<open>addRow\<close> passes to \<^verbatim>\<open>setGrid\<close>: the new grid, and whether
  \<^verbatim>\<open>setGameState('gameover')\<close> was called.
\<close>

definition addRow :: "(nat \<Rightarrow> string \<times> real) \<Rightarrow> Grid \<Rightarrow> Grid \<times> bool" where
  "addRow rnd prevGrid =
     (if topRowOccupied prevGrid then (prevGrid, True)
      else ((shiftUp prevGrid)[ROWS - 1 := freshRow rnd], False))"

definition runAddRow :: "(nat \<Rightarrow> string \<times> real) \<Rightarrow> Game \<Rightarrow> Game" where
  "runAddRow rnd s =
     (case addRow rnd (grid s) of
        (g, lost) \<Rightarrow> s\<lparr>grid := g, gameState := (if lost then GameOver else gameState s)\<rparr>)"

subsection \<open>Handlers\<close>

text \<open>
  \<^verbatim>\<open>initGame\<close>: an empty grid whose bottom \<open>INITIAL_ROWS\<close> rows are filled, from row
  \<open>ROWS - 1\<close> upwards, each row from column 0.
\<close>

definition initialGrid :: "(nat \<Rightarrow> nat \<Rightarrow> string \<times> real) \<Rightarrow> Grid" where
  "initialGrid rnd =
     foldl (\<lambda>g r. foldl (\<lambda>h c. setCell h r c (Some (newBlock (rnd r c)))) g [0..<COLS])
       (replicate ROWS (replicate COLS None))
       (rev [ROWS - INITIAL_ROWS..<ROWS])"

definition initGame :: "GameMode \<Rightarrow> (nat \<Rightarrow> nat \<Rightarrow> string \<times> real) \<Rightarrow> real \<Rightarrow> Game \<Rightarrow> Game" where
  "initGame selectedMode rnd x s =
     s\<lparr>grid := initialGrid rnd, target := generateTarget x, score := 0,
       mode := selectedMode, gameState := Playing, timeLeft := TIME_MODE_LIMIT\<rparr>"

text \<open>
  \<^verbatim>\<open>handleBlockClick(r, c)\<close>. \<open>x\<close> is the draw for the next target and \<open>rnd\<close> the draws
  for an injected row. \<^verbatim>\<open>grid[r]\<close> is \<^verbatim>\<open>undefined\<close> for a row index that is not in the
  array, and reading \<^verbatim>\<open>[c]\<close> of it raises; \<^verbatim>\<open>grid[r][c]\<close> for a column that is not in
  the row is \<^verbatim>\<open>undefined\<close>, which \<^verbatim>\<open>!block\<close> treats like \<^verbatim>\<open>null\<close>.
\<close>

definition handleBlockClick ::
    "real \<Rightarrow> (nat \<Rightarrow> string \<times> real) \<Rightarrow> int \<Rightarrow> int \<Rightarrow> Game \<Rightarrow> error + Game" where
  "handleBlockClick x rnd r c s =
     (if gameState s \<noteq> Playing then Inr s
      else case js_index (grid s) r of
        None \<Rightarrow> Inl TypeError
      | Some row \<Rightarrow>
          (case js_index row c of
             None \<Rightarrow> Inr s
           | Some None \<Rightarrow> Inr s
           | Some (Some block) \<Rightarrow>
               let newGrid = setCell (grid s) (nat r) (nat c)
                               (Some (block\<lparr>isSelected := \<not> isSelected block\<rparr>));
                   sel = selectedBlocks newGrid
               in if currentSum sel = target s then
                    let s1 = s\<lparr>grid := applyGravity (clearBlocks newGrid sel),
                               score := score s + int (length sel) * 10,
                               target := generateTarget x\<rparr>
                    in Inr (if mode s = Classic then runAddRow rnd s1
                            else s1\<lparr>timeLeft := TIME_MODE_LIMIT\<rparr>)
                  else if currentSum sel > target s then
                    Inr (s\<lparr>grid := deselectAll newGrid\<rparr>)
                  else Inr (s\<lparr>grid := newGrid\<rparr>)))"

text \<open>
  One firing of the interval of the timer effect, which exists only while
  \<^verbatim>\<open>gameState === 'playing' && mode === 'time'\<close>:
  \<^verbatim>\<open>setTimeLeft(prev => { if (prev <= 1) { addRow(); return TIME_MODE_LIMIT; } return prev - 1; })\<close>
\<close>

definition tick :: "(nat \<Rightarrow> string \<times> real) \<Rightarrow> Game \<Rightarrow> Game" where
  "tick rnd s =
     (if gameState s = Playing \<and> mode s = Time then
        (if timeLeft s \<le> 1 then (runAddRow rnd s)\<lparr>timeLeft := TIME_MODE_LIMIT\<rparr>
         else s\<lparr>timeLeft := timeLeft s - 1\<rparr>)
      else s)"

subsection \<open>The controller\<close>

text \<open>
  The events of the user interface and of the clock. The menu buttons exist only in the menu
  overlay, the resume button only in the pause overlay, the restart button only in the
  game-over overlay; the pause button is disabled in the menu and after the game is over;
  the quit button has no guard. A handler that raises leaves the state as it was.
\<close>

datatype event =
    Start GameMode "nat \<Rightarrow> nat \<Rightarrow> string \<times> real" real
  | Click int int real "nat \<Rightarrow> string \<times> real"
  | Tick "nat \<Rightarrow> string \<times> real"
  | PauseToggle
  | Resume
  | Quit
  | Restart

fun step :: "Game \<Rightarrow> event \<Rightarrow> Game" where
  "step s (Start m rnd x) = (if gameState s = Menu then initGame m rnd x s else s)"
| "step s (Click r c x rnd) =
     (case handleBlockClick x rnd r c s of Inl e \<Rightarrow> s | Inr s' \<Rightarrow> s')"
| "step s (Tick rnd) = tick rnd s"
| "step s PauseToggle =
     (if gameState s = Menu \<or> gameState s = GameOver then s
      else s\<lparr>gameState := (if gameState s = Playing then Paused else Playing)\<rparr>)"
| "step s Resume = (if gameState s = Paused then s\<lparr>gameState := Playing\<rparr> else s)"
| "step s Quit = s\<lparr>gameState := Menu\<rparr>"
| "step s Restart = (if gameState s = GameOver then s\<lparr>gameState := Menu\<rparr> else s)"

text \<open>The state of the component when it is mounted.\<close>

definition initialGame :: Game where
  "initialGame = \<lparr>grid = [], target = 0, score = 0, mode = Classic, gameState = Menu,
                   timeLeft = TIME_MODE_LIMIT\<rparr>"

definition isStart :: "event \<Rightarrow> bool" where
  "isStart e = (case e of Start m rnd x \<Rightarrow> True | _ \<Rightarrow> False)"

subsection \<open>Views used in the statements\<close>

text \<open>The value a cell adds to the sum of the selection, and the sum over a grid.\<close>

definition selectedValue :: "Block option \<Rightarrow> int" where
  "selectedValue cell = (case cell of None \<Rightarrow> 0 | Some b \<Rightarrow> if isSelected b then value_blk b else 0)"

definition selectedSum :: "Grid \<Rightarrow> int" where
  "selectedSum g = sum_list (map selectedValue (concat g))"

definition selectedCount :: "Grid \<Rightarrow> nat" where
  "selectedCount g = length (filter isSel (concat g))"

text \<open>The grid with every selected cell emptied.\<close>

definition withoutSelected :: "Grid \<Rightarrow> Grid" where
  "withoutSelected g = map (map (\<lambda>cell. if isSel cell then None else cell)) g"

text \<open>The tiles of a grid, without their selection flags.\<close>

definition tiles :: "Grid \<Rightarrow> (string \<times> int) option list list" where
  "tiles g = map (map (map_option (\<lambda>b. (id_blk b, value_blk b)))) g"

definition noneSelected :: "Grid \<Rightarrow> bool" where
  "noneSelected g = list_all (list_all (\<lambda>cell. \<not> isSel cell)) g"

text \<open>The cell with its selection flag flipped, as the click handler writes it.\<close>

definition toggled :: "Grid \<Rightarrow> nat \<Rightarrow> nat \<Rightarrow> Block \<Rightarrow> Grid" where
  "toggled g r c b = setCell g r c (Some (b\<lparr>isSelected := \<not> isSelected b\<rparr>))"






subsection \<open>Example states\<close>

text \<open>
  A grid with a floating tile in column 0 and a partial selection in the bottom row
  (\<open>7\<close> and \<open>9\<close> selected, \<open>8\<close> not), and game states over it.
\<close>

definition exampleGrid :: Grid where
  "exampleGrid =
     replicate 5 (replicate 6 None) @
     [[Some \<lparr>id_blk = ''e'', value_blk = 3, isSelected = False\<rparr>, None, None, None, None, None],
      replicate 6 None,
      replicate 6 None,
      [Some \<lparr>id_blk = ''d'', value_blk = 5, isSelected = False\<rparr>, None, None, None, None, None],
      [Some \<lparr>id_blk = ''a'', value_blk = 7, isSelected = True\<rparr>,
       Some \<lparr>id_blk = ''b'', value_blk = 8, isSelected = False\<rparr>,
       Some \<lparr>id_blk = ''c'', value_blk = 9, isSelected = True\<rparr>, None, None, None]]"

definition exampleGame :: "int \<Rightarrow> GameMode \<Rightarrow> int \<Rightarrow> Game" where
  "exampleGame tgt md t =
     \<lparr>grid = exampleGrid, target = tgt, score = 30, mode = md, gameState = Playing, timeLeft = t\<rparr>"

text \<open>Entropy for the examples: every tile draw is \<open>1/2\<close> (value 5).\<close>

definition fives :: "nat \<Rightarrow> nat \<Rightarrow> string \<times> real" where
  "fives r c = (''t'', 1 / 2)"

definition fiveRow :: "nat \<Rightarrow> string \<times> real" where
  "fiveRow c = (''n'', 1 / 2)"

text \<open>A grid whose top row holds a tile.\<close>

definition exampleTopGrid :: Grid where
  "exampleTopGrid =
     [Some \<lparr>id_blk = ''z'', value_blk = 4, isSelected = False\<rparr>, None, None, None, None, None] #
     replicate 9 (replicate 6 None)"

section \<open>Properties\<close>

subsection \<open>Gravity\<close>

lemma map_length_setCell: "map length (setCell g r c v) = map length g"
proof (cases "r < length g")
  case True
  then show ?thesis
    by (simp add: setCell_def map_update) (metis list_update_id nth_map)
next
  case False
  then show ?thesis by (simp add: setCell_def list_update_beyond)
qed

lemma column_setCell_other: "c' \<noteq> c \<Longrightarrow> column (setCell g r c v) c' = column g c'"
proof (cases "r < length g")
  case True
  assume "c' \<noteq> c"
  with True show ?thesis
    by (simp add: setCell_def column_def map_update) (metis list_update_id nth_map)
next
  case False
  then show ?thesis by (simp add: setCell_def list_update_beyond)
qed

lemma column_setCell_same:
  "r < length g \<Longrightarrow> c < length (g ! r) \<Longrightarrow> column (setCell g r c v) c = (column g c)[r := v]"
  by (simp add: setCell_def column_def map_update)

lemma map_length_gravityRows: "map length (gravityRows col n e g) = map length g"
  by (induction n arbitrary: e g) (auto simp: map_length_setCell split: option.splits)

lemma column_gravityRows_other:
  "c' \<noteq> col \<Longrightarrow> column (gravityRows col n e g) c' = column g c'"
  by (induction n arbitrary: e g) (auto simp: column_setCell_other split: option.splits)

lemma compacted_idem: "compacted (compacted xs) = compacted xs"
  by (auto simp add: compacted_def filter_empty_conv)


lemma move_tile_in_column:
  "((as' @ [a] @ replicate m None @ ys)[length as' := None])[length as' + m := Some b] =
     as' @ replicate m None @ Some b # ys"
proof -
  have 1: "(as' @ [a] @ replicate m None @ ys)[length as' := None] = as' @ None # replicate m None @ ys"
    by simp
  have 2: "None # replicate m None @ ys = replicate m None @ None # ys"
    by (simp add: replicate_app_Cons_same)
  have 3: "(as' @ replicate m None @ None # ys)[length as' + m := Some b] =
      as' @ replicate m None @ Some b # ys"
    using list_update_length[of "as' @ replicate m None" None ys "Some b"] by simp
  show ?thesis unfolding 1 2 3 ..
qed

lemma gravityRows_column:
  assumes "column g col = as @ replicate m None @ ys"
    and "length as = n"
    and "e = int n + int m - 1"
    and "list_all (\<lambda>row. col < length row) g"
  shows "column (gravityRows col n e g) col =
           replicate (m + length (filter (\<lambda>x. x = None) as)) None @ filter (\<lambda>x. x \<noteq> None) as @ ys"
  using assms
proof (induction n arbitrary: as m ys e g)
  case 0
  then show ?case by simp
next
  case (Suc n)
  from Suc.prems(2) obtain as' a where as: "as = as' @ [a]" and len: "length as' = n"
    by (metis length_Suc_conv_rev)
  have lg: "length g = Suc n + m + length ys"
    using Suc.prems(1,2) by (metis length_map column_def length_append length_replicate add.assoc)
  have cell: "g ! n ! col = a"
  proof -
    have "g ! n ! col = column g col ! n" using lg by (simp add: column_def)
    also have "\<dots> = a" using Suc.prems(1) as len by (simp add: nth_append)
    finally show ?thesis .
  qed
  have bounds: "col < length (h ! r)"
    if h: "map length h = map length g" and r: "r < length g" for h :: Grid and r
  proof -
    have "length (h ! r) = map length h ! r" using h r by (metis length_map nth_map)
    also have "\<dots> = length (g ! r)" using h r by simp
    finally show ?thesis using Suc.prems(4) r by (simp add: list_all_length)
  qed
  show ?case
  proof (cases a)
    case None
    have "column g col = as' @ replicate (Suc m) None @ ys"
      using Suc.prems(1) as None by (simp add: replicate_app_Cons_same)
    from Suc.IH[OF this len _ Suc.prems(4)] Suc.prems(3)
    have "column (gravityRows col n e g) col =
            replicate (Suc m + length (filter (\<lambda>x. x = None) as')) None @ filter (\<lambda>x. x \<noteq> None) as' @ ys"
      by simp
    then show ?thesis using cell None as by simp
  next
    case (Some b)
    define g1 where "g1 = setCell g n col None"
    define g2 where "g2 = setCell g1 (nat e) col (Some b)"
    have e: "nat e = n + m" using Suc.prems(3) by simp
    have ml1: "map length g1 = map length g" by (simp add: g1_def map_length_setCell)
    have ml2: "map length g2 = map length g" by (simp add: g2_def ml1 map_length_setCell)
    have l1: "length g1 = length g" using ml1 by (metis length_map)
    have c1: "column g1 col = (column g col)[n := None]"
      unfolding g1_def using lg bounds[of g n] by (simp add: column_setCell_same)
    have c2: "column g2 col = (column g1 col)[n + m := Some b]"
      unfolding g2_def e using lg l1 bounds[OF ml1, of "n + m"] by (simp add: column_setCell_same)
    have "column g2 col = as' @ replicate m None @ (Some b # ys)"
      unfolding c2 c1 Suc.prems(1) as Some using len move_tile_in_column[of as' "Some b" m ys b]
      by simp
    moreover have "list_all (\<lambda>row. col < length row) g2"
      using bounds[OF ml2] ml2 by (metis length_map list_all_length)
    moreover have "e - 1 = int n + int m - 1" using Suc.prems(3) by simp
    ultimately have "column (gravityRows col n (e - 1) g2) col =
            replicate (m + length (filter (\<lambda>x. x = None) as')) None @ filter (\<lambda>x. x \<noteq> None) as' @ (Some b # ys)"
      using Suc.IH[of g2 as' m "Some b # ys" "e - 1"] len by simp
    then show ?thesis using cell Some as by (simp add: g1_def g2_def)
  qed
qed


lemma wf_grid_iff_map_length: "wf_grid g \<longleftrightarrow> map length g = replicate ROWS COLS"
  by (auto simp: wf_grid_def list_all_length list_eq_iff_nth_eq)

lemma gravityRows_full_column:
  assumes "length g = n" and "list_all (\<lambda>row. col < length row) g"
  shows "column (gravityRows col n (int n - 1) g) col = compacted (column g col)"
  using gravityRows_column[of g col "column g col" 0 "[]" n "int n - 1"] assms
  by (simp add: compacted_def column_def)

lemma column_gravity_passes:
  assumes "wf_grid g" and "distinct cs" and "list_all (\<lambda>c. c < COLS) cs"
  shows "column (foldl (\<lambda>h col. gravityRows col ROWS (int ROWS - 1) h) g cs) c =
           (if c \<in> set cs then compacted (column g c) else column g c)"
  using assms
proof (induction cs arbitrary: g)
  case Nil
  then show ?case by simp
next
  case (Cons a cs)
  define g' where "g' = gravityRows a ROWS (int ROWS - 1) g"
  have wf': "wf_grid g'"
    using Cons.prems(1) by (simp add: g'_def wf_grid_iff_map_length map_length_gravityRows)
  have a: "a < COLS" using Cons.prems(3) by simp
  have rows: "list_all (\<lambda>row. a < length row) g"
    using Cons.prems(1) a by (auto simp: wf_grid_def list_all_iff)
  have ca: "column g' a = compacted (column g a)"
    using gravityRows_full_column[of g ROWS a] Cons.prems(1) rows by (simp add: g'_def wf_grid_def)
  have co: "column g' c = column g c" if "c \<noteq> a"
    using that by (simp add: g'_def column_gravityRows_other)
  have IH: "column (foldl (\<lambda>h col. gravityRows col ROWS (int ROWS - 1) h) g' cs) c =
           (if c \<in> set cs then compacted (column g' c) else column g' c)"
    using Cons.IH[OF wf'] Cons.prems(2,3) by simp
  show ?case
  proof (cases "c = a")
    case True
    then show ?thesis using IH ca Cons.prems(2) by (simp add: g'_def)
  next
    case False
    then show ?thesis using IH co by (simp add: g'_def)
  qed
qed

lemma wf_applyGravity: "wf_grid g \<Longrightarrow> wf_grid (applyGravity g)"
proof -
  have "map length (foldl (\<lambda>h col. gravityRows col ROWS (int ROWS - 1) h) g cs) = map length g" for cs
    by (induction cs arbitrary: g) (simp_all add: map_length_gravityRows)
  then show "wf_grid g \<Longrightarrow> wf_grid (applyGravity g)"
    by (simp add: wf_grid_iff_map_length applyGravity_def)
qed

lemma column_applyGravity:
  "wf_grid g \<Longrightarrow> c < COLS \<Longrightarrow> column (applyGravity g) c = compacted (column g c)"
  using column_gravity_passes[of g "[0..<COLS]" c]
  by (simp add: applyGravity_def list_all_iff)

lemma grid_eqI:
  assumes "wf_grid g" and "wf_grid h" and "\<And>c. c < COLS \<Longrightarrow> column g c = column h c"
  shows "g = h"
proof (rule nth_equalityI)
  show "length g = length h" using assms(1,2) by (simp add: wf_grid_def)
next
  fix i assume i: "i < length g"
  then have ih: "i < length h" using assms(1,2) by (simp add: wf_grid_def)
  have lg: "length (g ! i) = COLS" using assms(1) i by (simp add: wf_grid_def list_all_length)
  have lh: "length (h ! i) = COLS" using assms(2) ih by (simp add: wf_grid_def list_all_length)
  show "g ! i = h ! i"
  proof (rule nth_equalityI)
    show "length (g ! i) = length (h ! i)" using lg lh by simp
  next
    fix j assume "j < length (g ! i)"
    then have "j < COLS" using lg by simp
    from assms(3)[OF this] have "column g j ! i = column h j ! i" by simp
    then show "g ! i ! j = h ! i ! j" using i ih by (simp add: column_def)
  qed
qed

subsection \<open>The selection\<close>

lemma currentSum_sum_list: "currentSum sel = sum_list (map (\<lambda>b. snd (snd b)) sel)"
proof -
  have "foldl (\<lambda>acc b. acc + snd (snd b)) a sel = a + sum_list (map (\<lambda>b. snd (snd b)) sel)"
    for a :: int
    by (induction sel arbitrary: a) simp_all
  then show ?thesis by (simp add: currentSum_def)
qed

lemma sum_selectedInRow_from:
  "sum_list (map (\<lambda>b. snd (snd b))
     (concat (map (\<lambda>(ci, cell). case cell of
                     None \<Rightarrow> []
                   | Some b \<Rightarrow> if isSelected b then [(ri, ci, value_blk b)] else [])
                 (enumerate n row)))) = sum_list (map selectedValue row)"
  by (induction row arbitrary: n) (auto simp: selectedValue_def split: option.splits)

lemma length_selectedInRow_from:
  "length (concat (map (\<lambda>(ci, cell). case cell of
                     None \<Rightarrow> []
                   | Some b \<Rightarrow> if isSelected b then [(ri, ci, value_blk b)] else [])
                 (enumerate n row))) = length (filter isSel row)"
  by (induction row arbitrary: n) (auto simp: isSel_def split: option.splits)

lemma currentSum_selectedBlocks: "currentSum (selectedBlocks g) = selectedSum g"
proof -
  have "sum_list (map (\<lambda>b. snd (snd b)) (concat (map (\<lambda>(ri, row). selectedInRow ri row) (enumerate n g))))
          = sum_list (map selectedValue (concat g))" for n
    by (induction g arbitrary: n) (simp_all add: selectedInRow_def sum_selectedInRow_from)
  then show ?thesis by (simp add: currentSum_sum_list selectedBlocks_def selectedSum_def)
qed

lemma length_selectedBlocks: "length (selectedBlocks g) = selectedCount g"
proof -
  have "length (concat (map (\<lambda>(ri, row). selectedInRow ri row) (enumerate n g)))
          = length (filter isSel (concat g))" for n
    by (induction g arbitrary: n) (simp_all add: selectedInRow_def length_selectedInRow_from)
  then show ?thesis by (simp add: selectedBlocks_def selectedCount_def)
qed

lemma selectedInRow_source:
  assumes "(i, j, v) \<in> set (selectedInRow ri row)"
  shows "\<exists>ci cell. (ci, cell) \<in> set (enumerate 0 row) \<and> (i, j, v) \<in> set (case cell of
                     None \<Rightarrow> []
                   | Some b \<Rightarrow> if isSelected b then [(ri, ci, value_blk b)] else [])"
  using assms unfolding selectedInRow_def set_concat set_map by fastforce

lemma selectedInRow_member:
  assumes "j < length row" and "row ! j = Some b" and "isSelected b"
  shows "(ri, j, value_blk b) \<in> set (selectedInRow ri row)"
proof -
  have "(j, Some b) \<in> set (enumerate 0 row)" using assms by (simp add: in_set_enumerate_eq)
  then show ?thesis
    unfolding selectedInRow_def set_concat set_map using assms(3) by force
qed

lemma in_selectedInRow:
  "(i, j, v) \<in> set (selectedInRow ri row) \<longleftrightarrow>
     i = ri \<and> j < length row \<and> (\<exists>b. row ! j = Some b \<and> isSelected b \<and> v = value_blk b)"
proof
  assume "(i, j, v) \<in> set (selectedInRow ri row)"
  from selectedInRow_source[OF this] obtain ci cell
    where p: "(ci, cell) \<in> set (enumerate 0 row)"
      and mem: "(i, j, v) \<in> set (case cell of
                     None \<Rightarrow> []
                   | Some b \<Rightarrow> if isSelected b then [(ri, ci, value_blk b)] else [])"
    by blast
  have ci: "ci < length row" and cell: "row ! ci = cell"
    using p by (simp_all add: in_set_enumerate_eq)
  show "i = ri \<and> j < length row \<and> (\<exists>b. row ! j = Some b \<and> isSelected b \<and> v = value_blk b)"
  proof (cases cell)
    case None
    with mem show ?thesis by simp
  next
    case (Some b)
    with mem have "isSelected b" and "i = ri" and "j = ci" and "v = value_blk b"
      by (simp_all split: if_splits)
    with ci cell Some show ?thesis by simp
  qed
next
  assume "i = ri \<and> j < length row \<and> (\<exists>b. row ! j = Some b \<and> isSelected b \<and> v = value_blk b)"
  then show "(i, j, v) \<in> set (selectedInRow ri row)"
    using selectedInRow_member by blast
qed

lemma selectedBlocks_source:
  assumes "(i, j, v) \<in> set (selectedBlocks g)"
  shows "\<exists>ri row. (ri, row) \<in> set (enumerate 0 g) \<and> (i, j, v) \<in> set (selectedInRow ri row)"
  using assms unfolding selectedBlocks_def set_concat set_map by fastforce

lemma selectedBlocks_member:
  assumes "i < length g" and "(i, j, v) \<in> set (selectedInRow i (g ! i))"
  shows "(i, j, v) \<in> set (selectedBlocks g)"
proof -
  have "(i, g ! i) \<in> set (enumerate 0 g)" using assms(1) by (simp add: in_set_enumerate_eq)
  then show ?thesis
    unfolding selectedBlocks_def set_concat set_map using assms(2) by force
qed

lemma in_selectedBlocks:
  "(i, j, v) \<in> set (selectedBlocks g) \<longleftrightarrow>
     i < length g \<and> j < length (g ! i) \<and> (\<exists>b. g ! i ! j = Some b \<and> isSelected b \<and> v = value_blk b)"
proof
  assume "(i, j, v) \<in> set (selectedBlocks g)"
  from selectedBlocks_source[OF this] obtain ri row
    where p: "(ri, row) \<in> set (enumerate 0 g)" and mem: "(i, j, v) \<in> set (selectedInRow ri row)"
    by blast
  have "ri < length g" and "g ! ri = row"
    using p by (simp_all add: in_set_enumerate_eq)
  with mem show "i < length g \<and> j < length (g ! i) \<and> (\<exists>b. g ! i ! j = Some b \<and> isSelected b \<and> v = value_blk b)"
    by (simp add: in_selectedInRow)
next
  assume r: "i < length g \<and> j < length (g ! i) \<and> (\<exists>b. g ! i ! j = Some b \<and> isSelected b \<and> v = value_blk b)"
  then have "(i, j, v) \<in> set (selectedInRow i (g ! i))" by (simp add: in_selectedInRow)
  with r show "(i, j, v) \<in> set (selectedBlocks g)" by (simp add: selectedBlocks_member)
qed

lemma selectedBlocks_positions:
  "(i, j) \<in> (\<lambda>b. (fst b, fst (snd b))) ` set (selectedBlocks g) \<longleftrightarrow>
     i < length g \<and> j < length (g ! i) \<and> isSel (g ! i ! j)"
proof -
  have "(i, j) \<in> (\<lambda>b. (fst b, fst (snd b))) ` set (selectedBlocks g) \<longleftrightarrow>
          (\<exists>v. (i, j, v) \<in> set (selectedBlocks g))"
    by force
  also have "\<dots> \<longleftrightarrow> i < length g \<and> j < length (g ! i) \<and> isSel (g ! i ! j)"
    by (auto simp: in_selectedBlocks isSel_def split: option.splits)
  finally show ?thesis .
qed

lemma length_setCell: "length (setCell g r c v) = length g"
  by (simp add: setCell_def)

lemma length_nth_setCell: "length (setCell g r c v ! i) = length (g ! i)"
  by (cases "r < length g"; cases "i = r") (simp_all add: setCell_def list_update_beyond)

lemma nth_nth_setCell:
  "i < length g \<Longrightarrow> j < length (g ! i) \<Longrightarrow>
     setCell g r c v ! i ! j = (if i = r \<and> j = c then v else g ! i ! j)"
  by (cases "i = r") (auto simp: setCell_def nth_list_update)

lemma length_clearBlocks: "length (clearBlocks g ps) = length g"
  by (induction ps arbitrary: g) (simp_all add: clearBlocks_def length_setCell)

lemma length_nth_clearBlocks: "length (clearBlocks g ps ! i) = length (g ! i)"
  by (induction ps arbitrary: g) (simp_all add: clearBlocks_def length_nth_setCell)

lemma nth_nth_clearBlocks:
  "i < length g \<Longrightarrow> j < length (g ! i) \<Longrightarrow>
     clearBlocks g ps ! i ! j =
       (if (i, j) \<in> (\<lambda>b. (fst b, fst (snd b))) ` set ps then None else g ! i ! j)"
proof (induction ps arbitrary: g)
  case Nil
  then show ?case by (simp add: clearBlocks_def)
next
  case (Cons p ps)
  define g' where "g' = setCell g (fst p) (fst (snd p)) None"
  have "clearBlocks g (p # ps) = clearBlocks g' ps" by (simp add: clearBlocks_def g'_def)
  moreover have "clearBlocks g' ps ! i ! j =
       (if (i, j) \<in> (\<lambda>b. (fst b, fst (snd b))) ` set ps then None else g' ! i ! j)"
    using Cons.IH[of g'] Cons.prems by (simp add: g'_def length_setCell length_nth_setCell)
  moreover have "g' ! i ! j = (if i = fst p \<and> j = fst (snd p) then None else g ! i ! j)"
    using Cons.prems by (simp add: g'_def nth_nth_setCell)
  ultimately show ?case by auto
qed

lemma clearBlocks_selectedBlocks: "clearBlocks g (selectedBlocks g) = withoutSelected g"
proof (rule nth_equalityI)
  show "length (clearBlocks g (selectedBlocks g)) = length (withoutSelected g)"
    by (simp add: length_clearBlocks withoutSelected_def)
next
  fix i assume "i < length (clearBlocks g (selectedBlocks g))"
  then have i: "i < length g" by (simp add: length_clearBlocks)
  show "clearBlocks g (selectedBlocks g) ! i = withoutSelected g ! i"
  proof (rule nth_equalityI)
    show "length (clearBlocks g (selectedBlocks g) ! i) = length (withoutSelected g ! i)"
      using i by (simp add: length_nth_clearBlocks withoutSelected_def)
  next
    fix j assume "j < length (clearBlocks g (selectedBlocks g) ! i)"
    then have j: "j < length (g ! i)" by (simp add: length_nth_clearBlocks)
    show "clearBlocks g (selectedBlocks g) ! i ! j = withoutSelected g ! i ! j"
      using i j by (simp add: nth_nth_clearBlocks selectedBlocks_positions withoutSelected_def)
  qed
qed

lemma generateTarget_range:
  assumes "0 \<le> x" and "x < 1"
  shows "TARGET_MIN \<le> generateTarget x \<and> generateTarget x \<le> TARGET_MAX"
proof -
  have "0 \<le> x * 16" and "x * 16 < 16" using assms by simp_all
  then have "0 \<le> \<lfloor>x * 16\<rfloor>" and "\<lfloor>x * 16\<rfloor> < 16" by (simp_all add: floor_less_iff)
  then show ?thesis by (simp add: generateTarget_def TARGET_MIN_def TARGET_MAX_def)
qed

subsection \<open>Well-formed grids\<close>

lemma wf_setCell: "wf_grid g \<Longrightarrow> wf_grid (setCell g r c v)"
  by (simp add: wf_grid_iff_map_length map_length_setCell)

lemma wf_toggled: "wf_grid g \<Longrightarrow> wf_grid (toggled g r c b)"
  by (simp add: toggled_def wf_setCell)

lemma wf_withoutSelected: "wf_grid g \<Longrightarrow> wf_grid (withoutSelected g)"
  by (simp add: wf_grid_iff_map_length withoutSelected_def comp_def)


lemma wf_grid_row: "wf_grid g \<Longrightarrow> r < ROWS \<Longrightarrow> length (g ! r) = COLS"
  by (simp add: wf_grid_def list_all_length)

subsection \<open>Row injection\<close>

lemma shift_loop:
  assumes "n < length g"
  shows "length (foldl (\<lambda>h r. h[r := h ! (r + 1)]) g [0..<n]) = length g \<and>
         (\<forall>i < length g. foldl (\<lambda>h r. h[r := h ! (r + 1)]) g [0..<n] ! i =
                            (if i < n then g ! (i + 1) else g ! i))"
  using assms
proof (induction n)
  case 0
  then show ?case by simp
next
  case (Suc n)
  then show ?case by (auto simp: nth_list_update)
qed

lemma shiftUp_spawn:
  assumes "length g = ROWS"
  shows "(shiftUp g)[ROWS - 1 := row] = tl g @ [row]"
proof (rule nth_equalityI)
  show "length ((shiftUp g)[ROWS - 1 := row]) = length (tl g @ [row])"
    using shift_loop[of "ROWS - 1" g] assms by (simp add: shiftUp_def ROWS_def)
next
  fix i assume "i < length ((shiftUp g)[ROWS - 1 := row])"
  then have i: "i < ROWS"
    using shift_loop[of "ROWS - 1" g] assms by (simp add: shiftUp_def ROWS_def)
  show "(shiftUp g)[ROWS - 1 := row] ! i = (tl g @ [row]) ! i"
  proof (cases "i = ROWS - 1")
    case True
    then show ?thesis
      using shift_loop[of "ROWS - 1" g] assms by (simp add: shiftUp_def ROWS_def nth_append)
  next
    case False
    with i have "i < ROWS - 1" by simp
    then show ?thesis
      using shift_loop[of "ROWS - 1" g] assms False
      by (simp add: shiftUp_def ROWS_def nth_append nth_tl)
  qed
qed

lemma topRowOccupied_iff:
  "wf_grid g \<Longrightarrow> topRowOccupied g \<longleftrightarrow> (\<exists>c<COLS. g ! 0 ! c \<noteq> None)"
  using wf_grid_row[of g 0] by (simp add: topRowOccupied_def list_ex_length ROWS_def)

lemma addRow_wf:
  assumes "wf_grid g"
  shows "addRow rnd g = (if topRowOccupied g then (g, True) else (tl g @ [freshRow rnd], False))"
  using assms shiftUp_spawn[of g "freshRow rnd"] by (simp add: addRow_def wf_grid_def)



subsection \<open>The three outcomes of a click on a tile\<close>

lemma click_match:
  assumes "gameState s = Playing" and "r < length (grid s)" and "c < length (grid s ! r)"
    and "grid s ! r ! c = Some b"
    and "selectedSum (toggled (grid s) r c b) = target s"
  shows "handleBlockClick x rnd (int r) (int c) s =
           Inr (if mode s = Classic
                then runAddRow rnd
                       (s\<lparr>grid := applyGravity (withoutSelected (toggled (grid s) r c b)),
                          score := score s + int (selectedCount (toggled (grid s) r c b)) * 10,
                          target := generateTarget x\<rparr>)
                else s\<lparr>grid := applyGravity (withoutSelected (toggled (grid s) r c b)),
                       score := score s + int (selectedCount (toggled (grid s) r c b)) * 10,
                       target := generateTarget x, timeLeft := TIME_MODE_LIMIT\<rparr>)"
  using assms
  by (simp add: handleBlockClick_def js_index_def Let_def toggled_def
        currentSum_selectedBlocks length_selectedBlocks clearBlocks_selectedBlocks)

lemma click_overflow:
  assumes "gameState s = Playing" and "r < length (grid s)" and "c < length (grid s ! r)"
    and "grid s ! r ! c = Some b"
    and "target s < selectedSum (toggled (grid s) r c b)"
  shows "handleBlockClick x rnd (int r) (int c) s =
           Inr (s\<lparr>grid := deselectAll (toggled (grid s) r c b)\<rparr>)"
  using assms
  by (simp add: handleBlockClick_def js_index_def Let_def toggled_def currentSum_selectedBlocks)


subsection \<open>Tiles and selection flags\<close>

lemma tiles_deselectAll: "tiles (deselectAll g) = tiles g"
  by (simp add: tiles_def deselectAll_def comp_def option.map_comp)

lemma map_update_same_image:
  "i < length xs \<Longrightarrow> f y = f (xs ! i) \<Longrightarrow> map f (xs[i := y]) = map f xs"
  by (auto simp: list_eq_iff_nth_eq nth_list_update)

lemma tiles_toggled:
  assumes "r < length g" and "c < length (g ! r)" and "g ! r ! c = Some b"
  shows "tiles (toggled g r c b) = tiles g"
proof -
  define F :: "Block option list \<Rightarrow> (string \<times> int) option list"
    where "F = map (map_option (\<lambda>b. (id_blk b, value_blk b)))"
  have row: "F ((g ! r)[c := Some (b\<lparr>isSelected := \<not> isSelected b\<rparr>)]) = F (g ! r)"
    unfolding F_def using assms(2,3) by (intro map_update_same_image) simp_all
  have "map F (g[r := (g ! r)[c := Some (b\<lparr>isSelected := \<not> isSelected b\<rparr>)]]) = map F g"
    using assms(1) row by (rule map_update_same_image)
  then show ?thesis by (simp add: tiles_def toggled_def setCell_def F_def)
qed

lemma noneSelected_deselectAll: "noneSelected (deselectAll g)"
  by (auto simp: noneSelected_def deselectAll_def list_all_iff isSel_def split: option.splits)

subsection \<open>Clicks that change nothing\<close>

lemma click_not_playing: "gameState s \<noteq> Playing \<Longrightarrow> handleBlockClick x rnd r c s = Inr s"
  by (simp add: handleBlockClick_def)

lemma click_row_outside:
  "gameState s = Playing \<Longrightarrow> r < 0 \<or> int (length (grid s)) \<le> r \<Longrightarrow>
     handleBlockClick x rnd r c s = Inl TypeError"
  by (auto simp: handleBlockClick_def js_index_def)

lemma click_no_tile:
  "0 \<le> r \<Longrightarrow> r < int (length (grid s)) \<Longrightarrow>
   c < 0 \<or> int (length (grid s ! nat r)) \<le> c \<or> grid s ! nat r ! nat c = None \<Longrightarrow>
     handleBlockClick x rnd r c s = Inr s"
  by (auto simp: handleBlockClick_def js_index_def)

subsection \<open>The score\<close>

lemma score_runAddRow: "score (runAddRow rnd s) = score s"
  by (simp add: runAddRow_def split: prod.splits)

lemma score_click: "handleBlockClick x rnd r c s = Inr s' \<Longrightarrow> score s \<le> score s'"
  by (auto simp: handleBlockClick_def Let_def score_runAddRow
           split: if_splits option.splits)

lemma score_tick: "score (tick rnd s) = score s"
  by (simp add: tick_def score_runAddRow)

lemma score_step: "\<not> isStart e \<Longrightarrow> score s \<le> score (step s e)"
proof (cases e)
  case (Click r c x rnd)
  then show ?thesis
    by (cases "handleBlockClick x rnd r c s") (simp_all add: score_click)
qed (simp_all add: isStart_def score_tick)

lemma score_steps: "list_all (\<lambda>e. \<not> isStart e) evs \<Longrightarrow> score s \<le> score (foldl step s evs)"
proof (induction evs arbitrary: s)
  case Nil
  then show ?case by simp
next
  case (Cons e evs)
  have "score s \<le> score (step s e)" using Cons.prems by (simp add: score_step)
  also have "\<dots> \<le> score (foldl step (step s e) evs)" using Cons by simp
  finally show ?case by simp
qed

subsection \<open>The sum of the selection under a toggle\<close>






subsection \<open>Selection flags under gravity and row injection\<close>

lemma noneSelected_withoutSelected: "noneSelected (withoutSelected g)"
  by (auto simp: noneSelected_def withoutSelected_def list_all_iff isSel_def)

lemma noneSelected_columns:
  assumes "wf_grid g"
  shows "noneSelected g \<longleftrightarrow> (\<forall>c<COLS. list_all (\<lambda>cell. \<not> isSel cell) (column g c))"
proof -
  have len: "\<And>i. i < length g \<Longrightarrow> length (g ! i) = COLS"
    using assms by (simp add: wf_grid_def list_all_length)
  show ?thesis
    by (auto simp: noneSelected_def column_def list_all_length len)
qed

lemma list_all_compacted:
  "P None \<Longrightarrow> list_all P xs \<Longrightarrow> list_all P (compacted xs)"
  by (auto simp: compacted_def list_all_iff)

lemma noneSelected_applyGravity:
  assumes "wf_grid g" and "noneSelected g"
  shows "noneSelected (applyGravity g)"
  using assms
  by (simp add: noneSelected_columns wf_applyGravity column_applyGravity list_all_compacted isSel_def)

lemma noneSelected_freshRow: "list_all (\<lambda>cell. \<not> isSel cell) (freshRow rnd)"
  by (simp add: freshRow_def list_all_iff isSel_def newBlock_def)

lemma noneSelected_addRow:
  assumes "wf_grid g" and "noneSelected g"
  shows "noneSelected (fst (addRow rnd g))"
proof (cases g)
  case Nil
  with assms(1) show ?thesis by (simp add: wf_grid_def ROWS_def)
next
  case (Cons row rows)
  with assms show ?thesis
    by (simp add: addRow_wf noneSelected_def noneSelected_freshRow)
qed

subsection \<open>The grid invariant in the controller\<close>







subsection \<open>The selection stays below the target\<close>









subsection \<open>The values of the tiles\<close>















subsection \<open>Gravity: the claims\<close>

text \<open>
  C7. For every grid and every column of it, gravity leaves that column as its empty cells
  followed by its tiles, the tiles in their order from top to bottom (so every tile sits at
  the bottom, contiguously, and a tile above another stays above it). The result in a column
  is a function of that column alone.
\<close>

theorem applyGravity_compacts_column:
  assumes "wf_grid g" and "c < COLS"
  shows "column (applyGravity g) c =
           replicate (length (filter (\<lambda>x. x = None) (column g c))) None @
           filter (\<lambda>x. x \<noteq> None) (column g c)"
  using column_applyGravity[OF assms] by (simp add: compacted_def)

theorem applyGravity_compacts_column_witness:
  "wf_grid exampleGrid \<and> (0::nat) < COLS \<and>
   column (applyGravity exampleGrid) 0 =
     [None, None, None, None, None, None, None,
      Some \<lparr>id_blk = ''e'', value_blk = 3, isSelected = False\<rparr>,
      Some \<lparr>id_blk = ''d'', value_blk = 5, isSelected = False\<rparr>,
      Some \<lparr>id_blk = ''a'', value_blk = 7, isSelected = True\<rparr>]"
proof -
  have wf: "wf_grid exampleGrid" by code_simp
  have c: "(0::nat) < COLS" by code_simp
  have "replicate (length (filter (\<lambda>x. x = None) (column exampleGrid 0))) None @
          filter (\<lambda>x. x \<noteq> None) (column exampleGrid 0) =
     [None, None, None, None, None, None, None,
      Some \<lparr>id_blk = ''e'', value_blk = 3, isSelected = False\<rparr>,
      Some \<lparr>id_blk = ''d'', value_blk = 5, isSelected = False\<rparr>,
      Some \<lparr>id_blk = ''a'', value_blk = 7, isSelected = True\<rparr>]"
    by code_simp
  with applyGravity_compacts_column[OF wf c] wf c show ?thesis by simp
qed

text \<open>
  C8. Gravity is idempotent: on every grid, applying it twice gives the grid that applying
  it once gives.
\<close>

theorem applyGravity_idempotent:
  "wf_grid g \<Longrightarrow> applyGravity (applyGravity g) = applyGravity g"
  by (rule grid_eqI) (simp_all add: wf_applyGravity column_applyGravity compacted_idem)

theorem applyGravity_idempotent_witness:
  "wf_grid exampleGrid \<and> applyGravity exampleGrid \<noteq> exampleGrid \<and>
   applyGravity (applyGravity exampleGrid) = applyGravity exampleGrid"
proof -
  have wf: "wf_grid exampleGrid" by code_simp
  have ne: "applyGravity exampleGrid \<noteq> exampleGrid" by code_simp
  from applyGravity_idempotent[OF wf] wf ne show ?thesis by simp
qed

subsection \<open>Match and overflow\<close>

text \<open>
  C1. In a Playing state, when the click on an occupied cell \<open>(r, c)\<close> of the board makes
  the values of the selected cells sum to the target, the handler returns normally; the new
  grid is the grid after the toggle with exactly its selected cells emptied and gravity
  applied (in Classic mode followed by the row injection of that mode); the score grows by
  10 for each selected cell; and the new target is drawn by \<open>generateTarget\<close>, an integer
  between \<open>TARGET_MIN = 10\<close> and \<open>TARGET_MAX = 25\<close> inclusive.
\<close>

theorem match_clears_scores_retargets:
  assumes "gameState s = Playing" and "wf_grid (grid s)" and "r < ROWS" and "c < COLS"
    and "grid s ! r ! c = Some b"
    and "selectedSum (toggled (grid s) r c b) = target s"
    and "0 \<le> x" and "x < 1"
  shows "\<exists>s'. handleBlockClick x rnd (int r) (int c) s = Inr s' \<and>
           grid s' =
             (if mode s = Classic
              then fst (addRow rnd (applyGravity (withoutSelected (toggled (grid s) r c b))))
              else applyGravity (withoutSelected (toggled (grid s) r c b))) \<and>
           score s' = score s + 10 * int (selectedCount (toggled (grid s) r c b)) \<and>
           target s' = generateTarget x \<and> TARGET_MIN \<le> target s' \<and> target s' \<le> TARGET_MAX \<and>
           TARGET_MIN = 10 \<and> TARGET_MAX = 25"
proof -
  have r: "r < length (grid s)" using assms(2,3) by (simp add: wf_grid_def)
  have c: "c < length (grid s ! r)" using assms(2,3,4) by (simp add: wf_grid_row)
  note m = click_match[OF assms(1) r c assms(5,6), of x rnd]
  show ?thesis
    unfolding m using generateTarget_range[OF assms(7,8)]
    by (cases "addRow rnd (applyGravity (withoutSelected (toggled (grid s) r c b)))")
       (simp add: runAddRow_def TARGET_MIN_def TARGET_MAX_def)
qed

theorem match_clears_scores_retargets_witness:
  "gameState (exampleGame 24 Time 7) = Playing \<and> wf_grid (grid (exampleGame 24 Time 7)) \<and>
   (9::nat) < ROWS \<and> (1::nat) < COLS \<and>
   grid (exampleGame 24 Time 7) ! 9 ! 1 = Some \<lparr>id_blk = ''b'', value_blk = 8, isSelected = False\<rparr> \<and>
   selectedSum (toggled (grid (exampleGame 24 Time 7)) 9 1
      \<lparr>id_blk = ''b'', value_blk = 8, isSelected = False\<rparr>) = target (exampleGame 24 Time 7) \<and>
   (0::real) \<le> 1 / 2 \<and> (1 / 2 :: real) < 1 \<and>
   (\<exists>s'. handleBlockClick (1 / 2) fiveRow (int 9) (int 1) (exampleGame 24 Time 7) = Inr s' \<and>
         score s' = 60 \<and> target s' = 18 \<and>
         column (grid s') 0 =
           [None, None, None, None, None, None, None, None,
            Some \<lparr>id_blk = ''e'', value_blk = 3, isSelected = False\<rparr>,
            Some \<lparr>id_blk = ''d'', value_blk = 5, isSelected = False\<rparr>])"
proof -
  let ?s = "exampleGame 24 Time 7"
  let ?b = "\<lparr>id_blk = ''b'', value_blk = 8, isSelected = False\<rparr>"
  have h1: "gameState ?s = Playing" by code_simp
  have h2: "wf_grid (grid ?s)" by code_simp
  have h3: "(9::nat) < ROWS" by code_simp
  have h4: "(1::nat) < COLS" by code_simp
  have h5: "grid ?s ! 9 ! 1 = Some ?b" by code_simp
  have h6: "selectedSum (toggled (grid ?s) 9 1 ?b) = target ?s" by code_simp
  have h7: "(0::real) \<le> 1 / 2" by simp
  have h8: "(1 / 2 :: real) < 1" by simp
  have e0: "mode ?s \<noteq> Classic" by code_simp
  have e1: "score ?s + 10 * int (selectedCount (toggled (grid ?s) 9 1 ?b)) = 60" by code_simp
  have e2: "generateTarget (1 / 2) = 18" by code_simp
  have e3: "column (applyGravity (withoutSelected (toggled (grid ?s) 9 1 ?b))) 0 =
           [None, None, None, None, None, None, None, None,
            Some \<lparr>id_blk = ''e'', value_blk = 3, isSelected = False\<rparr>,
            Some \<lparr>id_blk = ''d'', value_blk = 5, isSelected = False\<rparr>]" by code_simp
  from match_clears_scores_retargets[OF h1 h2 h3 h4 h5 h6 h7 h8, of fiveRow]
  obtain s' where s': "handleBlockClick (1 / 2) fiveRow (int 9) (int 1) ?s = Inr s'"
      "grid s' = applyGravity (withoutSelected (toggled (grid ?s) 9 1 ?b))"
      "score s' = 60" "target s' = 18"
    using e0 e1 e2 by auto
  have "\<exists>s'. handleBlockClick (1 / 2) fiveRow (int 9) (int 1) ?s = Inr s' \<and>
         score s' = 60 \<and> target s' = 18 \<and>
         column (grid s') 0 =
           [None, None, None, None, None, None, None, None,
            Some \<lparr>id_blk = ''e'', value_blk = 3, isSelected = False\<rparr>,
            Some \<lparr>id_blk = ''d'', value_blk = 5, isSelected = False\<rparr>]"
    using s' e3 by (intro exI[of _ s']) simp
  with h1 h2 h3 h4 h5 h6 h7 h8 show ?thesis by blast
qed

text \<open>
  C2. In a Playing state, when the click on an occupied cell of the board makes the values
  of the selected cells exceed the target, every tile stays where it is (the grid of
  identifiers and values is the same, so no cell is emptied), no cell of the board is
  selected afterwards, and nothing but the grid changes: score and target are as before.
\<close>

theorem overflow_deselects_everything:
  assumes "gameState s = Playing" and "wf_grid (grid s)" and "r < ROWS" and "c < COLS"
    and "grid s ! r ! c = Some b"
    and "target s < selectedSum (toggled (grid s) r c b)"
  shows "\<exists>s'. handleBlockClick x rnd (int r) (int c) s = Inr s' \<and>
           tiles (grid s') = tiles (grid s) \<and> noneSelected (grid s') \<and>
           score s' = score s \<and> target s' = target s \<and> s' = s\<lparr>grid := grid s'\<rparr>"
proof -
  have r: "r < length (grid s)" using assms(2,3) by (simp add: wf_grid_def)
  have c: "c < length (grid s ! r)" using assms(2,3,4) by (simp add: wf_grid_row)
  note m = click_overflow[OF assms(1) r c assms(5,6), of x rnd]
  show ?thesis
    unfolding m by (simp add: tiles_deselectAll tiles_toggled[OF r c assms(5)] noneSelected_deselectAll)
qed

theorem overflow_deselects_everything_witness:
  "gameState (exampleGame 20 Classic 7) = Playing \<and> wf_grid (grid (exampleGame 20 Classic 7)) \<and>
   (9::nat) < ROWS \<and> (1::nat) < COLS \<and>
   grid (exampleGame 20 Classic 7) ! 9 ! 1 = Some \<lparr>id_blk = ''b'', value_blk = 8, isSelected = False\<rparr> \<and>
   target (exampleGame 20 Classic 7) <
     selectedSum (toggled (grid (exampleGame 20 Classic 7)) 9 1
        \<lparr>id_blk = ''b'', value_blk = 8, isSelected = False\<rparr>) \<and>
   \<not> noneSelected (grid (exampleGame 20 Classic 7)) \<and>
   (\<exists>s'. handleBlockClick (1 / 2) fiveRow (int 9) (int 1) (exampleGame 20 Classic 7) = Inr s' \<and>
         tiles (grid s') = tiles exampleGrid \<and> noneSelected (grid s') \<and>
         score s' = 30 \<and> target s' = 20)"
proof -
  let ?s = "exampleGame 20 Classic 7"
  let ?b = "\<lparr>id_blk = ''b'', value_blk = 8, isSelected = False\<rparr>"
  have h1: "gameState ?s = Playing" by code_simp
  have h2: "wf_grid (grid ?s)" by code_simp
  have h3: "(9::nat) < ROWS" by code_simp
  have h4: "(1::nat) < COLS" by code_simp
  have h5: "grid ?s ! 9 ! 1 = Some ?b" by code_simp
  have h6: "target ?s < selectedSum (toggled (grid ?s) 9 1 ?b)" by code_simp
  have h7: "\<not> noneSelected (grid ?s)" by code_simp
  have e1: "grid ?s = exampleGrid" "score ?s = 30" "target ?s = 20"
    by (simp_all add: exampleGame_def)
  from overflow_deselects_everything[OF h1 h2 h3 h4 h5 h6, of "1 / 2" fiveRow]
  have "\<exists>s'. handleBlockClick (1 / 2) fiveRow (int 9) (int 1) ?s = Inr s' \<and>
         tiles (grid s') = tiles exampleGrid \<and> noneSelected (grid s') \<and>
         score s' = 30 \<and> target s' = 20"
    unfolding e1 by blast
  with h1 h2 h3 h4 h5 h6 h7 show ?thesis by blast
qed

subsection \<open>Row injection and the clock\<close>

text \<open>
  C3. When some cell of row 0 holds a tile, row injection returns the grid as it is and
  signals the loss (the game state becomes GameOver): no shift, no new row. The shift with
  a fresh bottom row happens when row 0 is entirely empty, and only then.
\<close>

theorem injectRow_loss_precedes_shift:
  assumes "wf_grid (grid s)"
  shows "((\<exists>c<COLS. grid s ! 0 ! c \<noteq> None) \<longrightarrow>
            addRow rnd (grid s) = (grid s, True) \<and> runAddRow rnd s = s\<lparr>gameState := GameOver\<rparr>) \<and>
         (\<not> (\<exists>c<COLS. grid s ! 0 ! c \<noteq> None) \<longrightarrow>
            addRow rnd (grid s) = (tl (grid s) @ [freshRow rnd], False) \<and>
            runAddRow rnd s = s\<lparr>grid := tl (grid s) @ [freshRow rnd]\<rparr>)"
  using assms by (simp add: runAddRow_def addRow_wf topRowOccupied_iff)

theorem injectRow_loss_precedes_shift_witness:
  "wf_grid (grid ((exampleGame 20 Classic 7)\<lparr>grid := exampleTopGrid\<rparr>)) \<and>
   (\<exists>c<COLS. grid ((exampleGame 20 Classic 7)\<lparr>grid := exampleTopGrid\<rparr>) ! 0 ! c \<noteq> None) \<and>
   addRow fiveRow (grid ((exampleGame 20 Classic 7)\<lparr>grid := exampleTopGrid\<rparr>)) =
     (grid ((exampleGame 20 Classic 7)\<lparr>grid := exampleTopGrid\<rparr>), True) \<and>
   runAddRow fiveRow ((exampleGame 20 Classic 7)\<lparr>grid := exampleTopGrid\<rparr>) =
     (exampleGame 20 Classic 7)\<lparr>grid := exampleTopGrid, gameState := GameOver\<rparr> \<and>
   wf_grid (grid (exampleGame 20 Classic 7)) \<and>
   \<not> (\<exists>c<COLS. grid (exampleGame 20 Classic 7) ! 0 ! c \<noteq> None) \<and>
   addRow fiveRow (grid (exampleGame 20 Classic 7)) =
     (tl (grid (exampleGame 20 Classic 7)) @ [freshRow fiveRow], False)"
proof -
  let ?t = "(exampleGame 20 Classic 7)\<lparr>grid := exampleTopGrid\<rparr>"
  let ?s = "exampleGame 20 Classic 7"
  have t1: "wf_grid (grid ?t)" by code_simp
  have "grid ?t ! 0 ! 0 \<noteq> None" by code_simp
  moreover have "(0::nat) < COLS" by code_simp
  ultimately have t2: "\<exists>c<COLS. grid ?t ! 0 ! c \<noteq> None" by blast
  have s1: "wf_grid (grid ?s)" by code_simp
  have "list_all (\<lambda>c. grid ?s ! 0 ! c = None) [0..<COLS]" by code_simp
  then have s2: "\<not> (\<exists>c<COLS. grid ?s ! 0 ! c \<noteq> None)" by (auto simp: list_all_iff)
  from injectRow_loss_precedes_shift[OF t1, of fiveRow] t2
  have a: "addRow fiveRow (grid ?t) = (grid ?t, True)"
    and b: "runAddRow fiveRow ?t = ?t\<lparr>gameState := GameOver\<rparr>" by blast+
  from injectRow_loss_precedes_shift[OF s1, of fiveRow] s2
  have c: "addRow fiveRow (grid ?s) = (tl (grid ?s) @ [freshRow fiveRow], False)" by blast
  from t1 t2 a b s1 s2 c show ?thesis by simp
qed

text \<open>
  C6. In TimeAttack mode while Playing, a tick with more than one second left takes one
  second off; the tick that would bring the countdown to zero runs row injection once and
  sets the countdown to \<open>TIME_MODE_LIMIT = 15\<close>; and a Match sets the countdown to
  \<open>TIME_MODE_LIMIT\<close> with a grid that is the cleared grid after gravity, no row
  injected.
\<close>

theorem time_attack_countdown:
  assumes "gameState s = Playing" and "mode s = Time"
  shows "(1 < timeLeft s \<longrightarrow> tick rnd s = s\<lparr>timeLeft := timeLeft s - 1\<rparr>) \<and>
         (timeLeft s \<le> 1 \<longrightarrow> tick rnd s = (runAddRow rnd s)\<lparr>timeLeft := TIME_MODE_LIMIT\<rparr>) \<and>
         (wf_grid (grid s) \<and> r < ROWS \<and> c < COLS \<and> grid s ! r ! c = Some b \<and>
          selectedSum (toggled (grid s) r c b) = target s \<longrightarrow>
            (\<exists>s'. handleBlockClick x rnd (int r) (int c) s = Inr s' \<and>
                  timeLeft s' = TIME_MODE_LIMIT \<and>
                  grid s' = applyGravity (withoutSelected (toggled (grid s) r c b)) \<and>
                  gameState s' = Playing)) \<and>
         TIME_MODE_LIMIT = 15"
proof -
  have "\<exists>s'. handleBlockClick x rnd (int r) (int c) s = Inr s' \<and>
                  timeLeft s' = TIME_MODE_LIMIT \<and>
                  grid s' = applyGravity (withoutSelected (toggled (grid s) r c b)) \<and>
                  gameState s' = Playing"
    if wf: "wf_grid (grid s)" and rc: "r < ROWS" "c < COLS" and b: "grid s ! r ! c = Some b"
      and eq: "selectedSum (toggled (grid s) r c b) = target s"
  proof -
    have r: "r < length (grid s)" using wf rc by (simp add: wf_grid_def)
    have c: "c < length (grid s ! r)" using wf rc by (simp add: wf_grid_row)
    show ?thesis
      unfolding click_match[OF assms(1) r c b eq, of x rnd] using assms by simp
  qed
  then show ?thesis using assms by (auto simp: tick_def TIME_MODE_LIMIT_def)
qed

theorem time_attack_countdown_witness:
  "gameState (exampleGame 24 Time 7) = Playing \<and> mode (exampleGame 24 Time 7) = Time \<and>
   tick fiveRow (exampleGame 24 Time 7) = exampleGame 24 Time 6 \<and>
   gameState (exampleGame 24 Time 1) = Playing \<and> mode (exampleGame 24 Time 1) = Time \<and>
   tick fiveRow (exampleGame 24 Time 1) =
     (exampleGame 24 Time 15)\<lparr>grid := tl exampleGrid @ [freshRow fiveRow]\<rparr> \<and>
   (\<exists>s'. handleBlockClick (1 / 2) fiveRow (int 9) (int 1) (exampleGame 24 Time 7) = Inr s' \<and>
         timeLeft s' = 15 \<and> gameState s' = Playing \<and>
         grid s' = applyGravity (withoutSelected (toggled (grid (exampleGame 24 Time 7)) 9 1
                     \<lparr>id_blk = ''b'', value_blk = 8, isSelected = False\<rparr>)))"
proof -
  let ?s = "exampleGame 24 Time 7"
  let ?u = "exampleGame 24 Time 1"
  let ?b = "\<lparr>id_blk = ''b'', value_blk = 8, isSelected = False\<rparr>"
  have h1: "gameState ?s = Playing" and h2: "mode ?s = Time" by code_simp+
  have u1: "gameState ?u = Playing" and u2: "mode ?u = Time" by code_simp+
  have a1: "1 < timeLeft ?s" by code_simp
  have a2: "?s\<lparr>timeLeft := timeLeft ?s - 1\<rparr> = exampleGame 24 Time 6" by (simp add: exampleGame_def)
  have b1: "timeLeft ?u \<le> 1" by code_simp
  have b2: "(runAddRow fiveRow ?u)\<lparr>timeLeft := TIME_MODE_LIMIT\<rparr> =
              (exampleGame 24 Time 15)\<lparr>grid := tl exampleGrid @ [freshRow fiveRow]\<rparr>" by code_simp
  have c1: "wf_grid (grid ?s) \<and> (9::nat) < ROWS \<and> (1::nat) < COLS \<and> grid ?s ! 9 ! 1 = Some ?b \<and>
          selectedSum (toggled (grid ?s) 9 1 ?b) = target ?s" by code_simp
  have lim: "TIME_MODE_LIMIT = 15" by (simp add: TIME_MODE_LIMIT_def)
  from time_attack_countdown[OF h1 h2, of fiveRow] a1 a2
  have A: "tick fiveRow ?s = exampleGame 24 Time 6" by simp
  from time_attack_countdown[OF u1 u2, of fiveRow] b1 b2
  have B: "tick fiveRow ?u = (exampleGame 24 Time 15)\<lparr>grid := tl exampleGrid @ [freshRow fiveRow]\<rparr>"
    by simp
  from time_attack_countdown[OF h1 h2, of fiveRow 9 1 ?b "1 / 2"] c1
  have C: "\<exists>s'. handleBlockClick (1 / 2) fiveRow (int 9) (int 1) ?s = Inr s' \<and>
         timeLeft s' = 15 \<and> gameState s' = Playing \<and>
         grid s' = applyGravity (withoutSelected (toggled (grid ?s) 9 1 ?b))"
    unfolding lim by blast
  from h1 h2 u1 u2 A B C show ?thesis by blast
qed

subsection \<open>Clicks without a tile\<close>

text \<open>
  C5, as amended. A click returns normally and leaves the state as it is when the game is
  not in the Playing state, and also when the row index is on the board and the cell is
  empty or the column index is off the board. Whatever the indices, a click on an empty cell
  or off the board leaves grid, score, target, timeLeft and gameState unchanged.
\<close>

theorem activate_without_tile_is_noop:
  "(gameState s \<noteq> Playing \<longrightarrow> handleBlockClick x rnd r c s = Inr s) \<and>
   (wf_grid (grid s) \<and> 0 \<le> r \<and> r < int ROWS \<and>
      (c < 0 \<or> int COLS \<le> c \<or> grid s ! nat r ! nat c = None) \<longrightarrow>
        handleBlockClick x rnd r c s = Inr s) \<and>
   (wf_grid (grid s) \<and>
      (r < 0 \<or> int ROWS \<le> r \<or> c < 0 \<or> int COLS \<le> c \<or> grid s ! nat r ! nat c = None) \<longrightarrow>
        step s (Click r c x rnd) = s)"
proof (intro conjI impI)
  assume "gameState s \<noteq> Playing"
  then show "handleBlockClick x rnd r c s = Inr s" by (rule click_not_playing)
next
  assume a: "wf_grid (grid s) \<and> 0 \<le> r \<and> r < int ROWS \<and>
      (c < 0 \<or> int COLS \<le> c \<or> grid s ! nat r ! nat c = None)"
  then have nr: "nat r < ROWS" by linarith
  have "length (grid s) = ROWS" and "length (grid s ! nat r) = COLS"
    using a wf_grid_row[OF _ nr] by (simp_all add: wf_grid_def)
  with a show "handleBlockClick x rnd r c s = Inr s"
    by (intro click_no_tile) auto
next
  assume a: "wf_grid (grid s) \<and>
      (r < 0 \<or> int ROWS \<le> r \<or> c < 0 \<or> int COLS \<le> c \<or> grid s ! nat r ! nat c = None)"
  then have len: "length (grid s) = ROWS" by (simp add: wf_grid_def)
  show "step s (Click r c x rnd) = s"
  proof (cases "gameState s = Playing")
    case False
    then show ?thesis by (simp add: click_not_playing)
  next
    case True
    show ?thesis
    proof (cases "r < 0 \<or> int ROWS \<le> r")
      case True
      with \<open>gameState s = Playing\<close> len show ?thesis by (simp add: click_row_outside)
    next
      case False
      then have r: "0 \<le> r" "r < int ROWS" by simp_all
      then have nr: "nat r < ROWS" by linarith
      have "length (grid s ! nat r) = COLS" using a wf_grid_row[OF _ nr] by simp
      with a r len False have "handleBlockClick x rnd r c s = Inr s"
        by (intro click_no_tile) auto
      then show ?thesis by simp
    qed
  qed
qed

theorem activate_without_tile_is_noop_witness:
  "gameState initialGame \<noteq> Playing \<and>
   handleBlockClick 0 fiveRow 3 4 initialGame = Inr initialGame \<and>
   wf_grid (grid (exampleGame 24 Classic 7)) \<and> (0::int) \<le> 9 \<and> (9::int) < int ROWS \<and>
   grid (exampleGame 24 Classic 7) ! nat 9 ! nat 3 = None \<and>
   handleBlockClick 0 fiveRow 9 3 (exampleGame 24 Classic 7) = Inr (exampleGame 24 Classic 7) \<and>
   int COLS \<le> 6 \<and>
   handleBlockClick 0 fiveRow 9 6 (exampleGame 24 Classic 7) = Inr (exampleGame 24 Classic 7) \<and>
   int ROWS \<le> 10 \<and>
   step (exampleGame 24 Classic 7) (Click 10 0 0 fiveRow) = exampleGame 24 Classic 7"
proof -
  let ?s = "exampleGame 24 Classic 7"
  have n: "gameState initialGame \<noteq> Playing" by code_simp
  have wf: "wf_grid (grid ?s)" by code_simp
  have r: "(0::int) \<le> 9" "(9::int) < int ROWS" by (simp_all add: ROWS_def)
  have e: "grid ?s ! nat 9 ! nat 3 = None" by code_simp
  have c: "int COLS \<le> 6" by (simp add: COLS_def)
  have o: "int ROWS \<le> 10" by (simp add: ROWS_def)
  from activate_without_tile_is_noop[of initialGame 0 fiveRow 3 4] n
  have A: "handleBlockClick 0 fiveRow 3 4 initialGame = Inr initialGame" by blast
  from activate_without_tile_is_noop[of ?s 0 fiveRow 9 3] wf r e
  have B: "handleBlockClick 0 fiveRow 9 3 ?s = Inr ?s" by blast
  from activate_without_tile_is_noop[of ?s 0 fiveRow 9 6] wf r c
  have C: "handleBlockClick 0 fiveRow 9 6 ?s = Inr ?s" by blast
  from activate_without_tile_is_noop[of ?s 0 fiveRow 10 0] wf o
  have D: "step ?s (Click 10 0 0 fiveRow) = ?s" by blast
  from n A wf r e B c C o D show ?thesis by blast
qed

text \<open>
  C5 as stated fails where it says that no error is raised: in the first state of a game, a
  click with row index \<open>10\<close> reads \<^verbatim>\<open>grid[10][0]\<close>, and \<^verbatim>\<open>grid[10]\<close> is
  \<^verbatim>\<open>undefined\<close>.
\<close>

theorem activate_row_outside_raises:
  "handleBlockClick 0 fiveRow 10 0 (step initialGame (Start Classic fives 0)) = Inl TypeError"
  by code_simp

subsection \<open>The score over the events\<close>

text \<open>
  C9, as amended. No event other than the start of a game lowers the score, and so no
  sequence of such events does; the start of a game sets the score to \<open>0\<close>.
\<close>

theorem score_drops_only_at_start:
  "(\<not> isStart e \<longrightarrow> score s \<le> score (step s e)) \<and>
   (list_all (\<lambda>e. \<not> isStart e) evs \<longrightarrow> score s \<le> score (foldl step s evs)) \<and>
   (gameState s = Menu \<longrightarrow> score (step s (Start m rnd x)) = 0)"
  by (simp add: score_step score_steps initGame_def)

theorem score_drops_only_at_start_witness:
  "\<not> isStart (Click 9 1 0 fiveRow) \<and>
   score (foldl step initialGame [Start Classic fives 0, Click 9 0 0 fiveRow]) = 0 \<and>
   score (step (foldl step initialGame [Start Classic fives 0, Click 9 0 0 fiveRow])
            (Click 9 1 0 fiveRow)) = 20 \<and>
   score (foldl step initialGame [Start Classic fives 0, Click 9 0 0 fiveRow])
     \<le> score (step (foldl step initialGame [Start Classic fives 0, Click 9 0 0 fiveRow])
            (Click 9 1 0 fiveRow)) \<and>
   list_all (\<lambda>e. \<not> isStart e) [Click 9 1 0 fiveRow, Tick fiveRow, PauseToggle, Resume, Quit, Restart] \<and>
   score (foldl step initialGame [Start Classic fives 0, Click 9 0 0 fiveRow])
     \<le> score (foldl step (foldl step initialGame [Start Classic fives 0, Click 9 0 0 fiveRow])
            [Click 9 1 0 fiveRow, Tick fiveRow, PauseToggle, Resume, Quit, Restart]) \<and>
   gameState initialGame = Menu \<and>
   score (step initialGame (Start Classic fives 0)) = 0"
proof -
  let ?s = "foldl step initialGame [Start Classic fives 0, Click 9 0 0 fiveRow]"
  let ?evs = "[Click 9 1 0 fiveRow, Tick fiveRow, PauseToggle, Resume, Quit, Restart]"
  have a: "\<not> isStart (Click 9 1 0 fiveRow)" by (simp add: isStart_def)
  have b: "score ?s = 0" by code_simp
  have c: "score (step ?s (Click 9 1 0 fiveRow)) = 20" by code_simp
  have d: "list_all (\<lambda>e. \<not> isStart e) ?evs" by (simp add: isStart_def)
  have m: "gameState initialGame = Menu" by (simp add: initialGame_def)
  note T = score_drops_only_at_start[of "Click 9 1 0 fiveRow" ?s ?evs]
  from T a have A: "score ?s \<le> score (step ?s (Click 9 1 0 fiveRow))" by blast
  from T d have B: "score ?s \<le> score (foldl step ?s ?evs)" by blast
  from score_drops_only_at_start[of _ initialGame _ Classic fives 0] m
  have C: "score (step initialGame (Start Classic fives 0)) = 0" by blast
  from a b c A d B m C show ?thesis by blast
qed

text \<open>
  C9 as stated fails at the start transition: after a game with one Match (score 20) is
  quit, starting a new game brings the score back to \<open>0\<close>.
\<close>

theorem score_decreases_at_start:
  "score (step (foldl step initialGame
                  [Start Classic fives 0, Click 9 0 0 fiveRow, Click 9 1 0 fiveRow, Quit])
               (Start Time fives 0))
     < score (foldl step initialGame
                  [Start Classic fives 0, Click 9 0 0 fiveRow, Click 9 1 0 fiveRow, Quit])"
  by code_simp

subsection \<open>The decision after a toggle\<close>




subsection \<open>Selection flags across gravity and row injection\<close>

text \<open>
  C4, as amended. Gravity runs only in the Match branch, after every selected cell has been
  emptied, and the grid that a Match leaves (also after the row injection of Classic mode)
  has no selected cell. A row injection keeps the selection flags: when the clock injects a
  row, the new grid is rows \<open>1..ROWS-1\<close> of the old one as they were, flags included,
  followed by a fresh row of unselected tiles.
\<close>

theorem selection_cleared_by_match_kept_by_injection:
  assumes "wf_grid (grid s)" and "gameState s = Playing"
  shows "(r < ROWS \<and> c < COLS \<and> grid s ! r ! c = Some b \<and>
          selectedSum (toggled (grid s) r c b) = target s \<longrightarrow>
            (\<exists>s'. handleBlockClick x rnd (int r) (int c) s = Inr s' \<and> noneSelected (grid s'))) \<and>
         (mode s = Time \<and> timeLeft s \<le> 1 \<and> \<not> topRowOccupied (grid s) \<longrightarrow>
            grid (tick rnd s) = tl (grid s) @ [freshRow rnd] \<and>
            list_all (\<lambda>cell. \<not> isSel cell) (freshRow rnd))"
proof (intro conjI impI)
  assume a: "r < ROWS \<and> c < COLS \<and> grid s ! r ! c = Some b \<and>
          selectedSum (toggled (grid s) r c b) = target s"
  have r: "r < length (grid s)" using assms(1) a by (simp add: wf_grid_def)
  have c: "c < length (grid s ! r)" using assms(1) a by (simp add: wf_grid_row)
  define g' where "g' = applyGravity (withoutSelected (toggled (grid s) r c b))"
  have wf': "wf_grid g'"
    using assms(1) by (simp add: g'_def wf_applyGravity wf_withoutSelected wf_toggled)
  have ns: "noneSelected g'"
    unfolding g'_def using assms(1)
    by (intro noneSelected_applyGravity wf_withoutSelected wf_toggled noneSelected_withoutSelected)
  have "noneSelected (fst (addRow rnd g'))" using wf' ns by (rule noneSelected_addRow)
  then show "\<exists>s'. handleBlockClick x rnd (int r) (int c) s = Inr s' \<and> noneSelected (grid s')"
    using click_match[OF assms(2) r c, of b x rnd] a ns
    by (cases "addRow rnd g'") (auto simp: g'_def runAddRow_def)
next
  assume a: "mode s = Time \<and> timeLeft s \<le> 1 \<and> \<not> topRowOccupied (grid s)"
  then show "grid (tick rnd s) = tl (grid s) @ [freshRow rnd]"
    using assms by (simp add: tick_def runAddRow_def addRow_wf)
next
  show "list_all (\<lambda>cell. \<not> isSel cell) (freshRow rnd)" by (rule noneSelected_freshRow)
qed

theorem selection_cleared_by_match_kept_by_injection_witness:
  "wf_grid (grid (exampleGame 24 Time 1)) \<and> gameState (exampleGame 24 Time 1) = Playing \<and>
   (9::nat) < ROWS \<and> (1::nat) < COLS \<and>
   grid (exampleGame 24 Time 1) ! 9 ! 1 = Some \<lparr>id_blk = ''b'', value_blk = 8, isSelected = False\<rparr> \<and>
   selectedSum (toggled (grid (exampleGame 24 Time 1)) 9 1
      \<lparr>id_blk = ''b'', value_blk = 8, isSelected = False\<rparr>) = target (exampleGame 24 Time 1) \<and>
   (\<exists>s'. handleBlockClick (1 / 2) fiveRow (int 9) (int 1) (exampleGame 24 Time 1) = Inr s' \<and>
         noneSelected (grid s')) \<and>
   mode (exampleGame 24 Time 1) = Time \<and> timeLeft (exampleGame 24 Time 1) \<le> 1 \<and>
   \<not> topRowOccupied (grid (exampleGame 24 Time 1)) \<and>
   grid (tick fiveRow (exampleGame 24 Time 1)) = tl (grid (exampleGame 24 Time 1)) @ [freshRow fiveRow] \<and>
   grid (exampleGame 24 Time 1) ! 9 ! 0 = Some \<lparr>id_blk = ''a'', value_blk = 7, isSelected = True\<rparr> \<and>
   grid (tick fiveRow (exampleGame 24 Time 1)) ! 8 ! 0 =
     Some \<lparr>id_blk = ''a'', value_blk = 7, isSelected = True\<rparr>"
proof -
  let ?s = "exampleGame 24 Time 1"
  let ?b = "\<lparr>id_blk = ''b'', value_blk = 8, isSelected = False\<rparr>"
  have h1: "wf_grid (grid ?s)" by code_simp
  have h2: "gameState ?s = Playing" by code_simp
  have m: "(9::nat) < ROWS" "(1::nat) < COLS" "grid ?s ! 9 ! 1 = Some ?b"
    "selectedSum (toggled (grid ?s) 9 1 ?b) = target ?s" by code_simp+
  have t: "mode ?s = Time" "timeLeft ?s \<le> 1" "\<not> topRowOccupied (grid ?s)" by code_simp+
  have a: "grid ?s ! 9 ! 0 = Some \<lparr>id_blk = ''a'', value_blk = 7, isSelected = True\<rparr>"
    by code_simp
  note T = selection_cleared_by_match_kept_by_injection[OF h1 h2, of 9 1 ?b "1 / 2" fiveRow]
  from T m have A: "\<exists>s'. handleBlockClick (1 / 2) fiveRow (int 9) (int 1) ?s = Inr s' \<and>
         noneSelected (grid s')" by blast
  from T t have B: "grid (tick fiveRow ?s) = tl (grid ?s) @ [freshRow fiveRow]" by blast
  have "(tl (grid ?s) @ [freshRow fiveRow]) ! 8 ! 0 =
     Some \<lparr>id_blk = ''a'', value_blk = 7, isSelected = True\<rparr>" by code_simp
  then have C: "grid (tick fiveRow ?s) ! 8 ! 0 =
     Some \<lparr>id_blk = ''a'', value_blk = 7, isSelected = True\<rparr>" unfolding B .
  from h1 h2 m A t B a C show ?thesis by blast
qed

text \<open>
  C4 as stated fails for row injection: in a TimeAttack game, the tile selected at the
  bottom left is still selected after the fifteenth tick has moved it up one row.
\<close>

theorem selection_survives_row_injection:
  "gameState (foldl step initialGame
        (Start Time fives 0 # Click 9 0 0 fiveRow # replicate 14 (Tick fiveRow))) = Playing \<and>
   grid (foldl step initialGame
        (Start Time fives 0 # Click 9 0 0 fiveRow # replicate 14 (Tick fiveRow))) ! 9 ! 0
     = Some \<lparr>id_blk = ''t'', value_blk = 5, isSelected = True\<rparr> \<and>
   grid (step (foldl step initialGame
        (Start Time fives 0 # Click 9 0 0 fiveRow # replicate 14 (Tick fiveRow))) (Tick fiveRow)) ! 8 ! 0
     = Some \<lparr>id_blk = ''t'', value_blk = 5, isSelected = True\<rparr> \<and>
   grid (step (foldl step initialGame
        (Start Time fives 0 # Click 9 0 0 fiveRow # replicate 14 (Tick fiveRow))) (Tick fiveRow)) ! 9 ! 0
     = Some \<lparr>id_blk = ''n'', value_blk = 5, isSelected = False\<rparr>"
  by code_simp

end
